theory Spec2Isabelle
  imports Complex_Main "HOL-Library.Monad_Syntax"
begin

section \<open>Numbers\<close>

text \<open>
  The script computes with JavaScript numbers. They are modelled as reals. The two
  operations of the script whose result can leave the reals, the remainder by a zero
  divisor (NaN in JavaScript) and the division by an empty input range inside
  \<open>mapRange\<close> (an infinity or NaN), return \<open>None\<close> there.
\<close>

definition js_trunc :: "real \<Rightarrow> int" where
  \<comment> \<open>rounding toward zero, the quotient that JavaScript's \<open>%\<close> takes\<close>
  "js_trunc q = (if 0 \<le> q then \<lfloor>q\<rfloor> else \<lceil>q\<rceil>)"

definition js_rem :: "real \<Rightarrow> real \<Rightarrow> real option" where
  \<comment> \<open>\<open>x % m\<close>: the remainder has the sign of the dividend; \<open>x % 0\<close> is NaN\<close>
  "js_rem x m = (if m = 0 then None else Some (x - m * of_int (js_trunc (x / m))))"

subsection \<open>Helper functions of the script\<close>

text \<open>
  \<open>function wrap(x) { return ((x % totalWidth) + totalWidth) % totalWidth; }\<close>
  The global \<open>totalWidth\<close> is the first argument.
\<close>

definition wrap :: "real \<Rightarrow> real \<Rightarrow> real option" where
  "wrap totalWidth x =
     (case js_rem x totalWidth of
        None \<Rightarrow> None
      | Some r \<Rightarrow> js_rem (r + totalWidth) totalWidth)"

text \<open>\<open>function easeScale(t) { return t < 0.5 ? 2 * t * t : -1 + (4 - 2 * t) * t; }\<close>\<close>

definition easeScale :: "real \<Rightarrow> real" where
  "easeScale t = (if t < 0.5 then 2 * t * t else -1 + (4 - 2 * t) * t)"

text \<open>
  Modelled from the spec: \<open>gsap.utils.clamp(min, max, value)\<close> belongs to the GSAP library,
  which is not part of the script. The spec's \<open>clamp(v, 0, 1)\<close>: the value, cut off at
  the two bounds.
\<close>

definition clamp :: "real \<Rightarrow> real \<Rightarrow> real \<Rightarrow> real" where
  "clamp lo hi v = (if v < lo then lo else if hi < v then hi else v)"

text \<open>
  Modelled from the spec: \<open>gsap.utils.mapRange(inMin, inMax, outMin, outMax, value)\<close>
  belongs to the GSAP library as well. The spec's ``map linearly'' from the input range
  onto the output range, with no clamping. An empty input range divides by zero.
\<close>

definition mapRange :: "real \<Rightarrow> real \<Rightarrow> real \<Rightarrow> real \<Rightarrow> real \<Rightarrow> real option" where
  "mapRange inMin inMax outMin outMax v =
     (if inMax = inMin then None
      else Some (outMin + (v - inMin) / (inMax - inMin) * (outMax - outMin)))"

section \<open>The script's state\<close>

datatype card = Card nat

datatype error = TypeError

text \<open>
  What the handlers read from the page: the first card's \<open>offsetWidth\<close>, its computed
  \<open>marginRight\<close> as \<open>parseFloat\<close> reads it (\<open>None\<close> for the empty string, which
  \<open>|| 0\<close> replaces by 0) and \<open>window.innerWidth\<close>.
\<close>

record layout =
  offsetWidth :: real
  marginRight :: "real option"
  innerWidth :: real

text \<open>The script's global variables. \<open>draggingClass\<close> is the viewport's CSS class.\<close>

record carousel =
  cards :: "card list"
  itemW :: real
  totalWidth :: real
  visibleCenterX :: real
  position :: real
  velocity :: real
  smoothPos :: real
  touchStartX :: "real option"
  isDragging :: bool
  lastX :: real
  dragStartTime :: real
  dragStartX :: real
  draggingClass :: bool

definition friction :: real where "friction = 0.91"
definition wheelMultiplier :: real where "wheelMultiplier = 0.1"
definition lerpSpeed :: real where "lerpSpeed = 0.14"

text \<open>
  \<open>getItemWidth\<close> reads \<open>cards[0]\<close>; with no card, \<open>getComputedStyle(undefined)\<close>
  throws.
\<close>

definition getItemWidth :: "layout \<Rightarrow> card list \<Rightarrow> error + real" where
  "getItemWidth env cs =
     (case cs of
        [] \<Rightarrow> Inl TypeError
      | c # _ \<Rightarrow> Inr (offsetWidth env + (case marginRight env of None \<Rightarrow> 0 | Some m \<Rightarrow> m)))"

section \<open>Input handling\<close>

definition wheel :: "carousel \<Rightarrow> real \<Rightarrow> carousel" where
  "wheel s deltaY = s\<lparr>velocity := velocity s + deltaY * wheelMultiplier\<rparr>"

definition touchstart :: "carousel \<Rightarrow> real \<Rightarrow> carousel" where
  "touchstart s clientX = s\<lparr>touchStartX := Some clientX\<rparr>"

definition touchmove :: "carousel \<Rightarrow> real \<Rightarrow> carousel" where
  "touchmove s clientX =
     (case touchStartX s of
        None \<Rightarrow> s
      | Some x0 \<Rightarrow>
          (let dx = clientX - x0
           in s\<lparr>position := position s - dx, touchStartX := Some clientX\<rparr>))"

definition touchend :: "carousel \<Rightarrow> carousel" where
  "touchend s = s\<lparr>touchStartX := None\<rparr>"

text \<open>\<open>now\<close> is the value of \<open>performance.now()\<close>, in milliseconds, when the handler runs.\<close>

definition mousedown :: "carousel \<Rightarrow> real \<Rightarrow> real \<Rightarrow> carousel" where
  "mousedown s clientX now =
     s\<lparr>isDragging := True, lastX := clientX, dragStartX := clientX,
       dragStartTime := now, velocity := 0, draggingClass := True\<rparr>"

definition mouseup :: "carousel \<Rightarrow> real \<Rightarrow> real \<Rightarrow> carousel" where
  "mouseup s clientX now =
     (if isDragging s then
        (let s1 = s\<lparr>draggingClass := False, isDragging := False\<rparr>;
             dx = clientX - dragStartX s;
             dt = (now - dragStartTime s) / 1000
         in if 0 < dt then
              (let v = - (dx / dt) * 0.03;
                   maxVelocity = 30
               in s1\<lparr>velocity := max (min v maxVelocity) (- maxVelocity)\<rparr>)
            else s1)
      else s)"

definition mousemove :: "carousel \<Rightarrow> real \<Rightarrow> carousel" where
  "mousemove s clientX =
     (if \<not> isDragging s then s
      else (let dx = clientX - lastX s
            in s\<lparr>position := position s - dx * 0.8, lastX := clientX\<rparr>))"

section \<open>Animation loop\<close>

text \<open>The head of the ticker callback: what it does to the global variables.\<close>

definition ticker :: "carousel \<Rightarrow> carousel" where
  "ticker s =
     (let s1 = (if \<not> isDragging s
                then s\<lparr>position := position s + velocity s, velocity := velocity s * friction\<rparr>
                else s)
      in s1\<lparr>smoothPos := smoothPos s1 + (position s1 - smoothPos s1) * lerpSpeed\<rparr>)"

text \<open>
  The body of the loop over the cards, for the card at index \<open>i\<close>, in the state the head
  has left. The locals \<open>baseX\<close>, \<open>finalX\<close> and \<open>cardCenterX\<close> first.
\<close>

definition baseX :: "carousel \<Rightarrow> nat \<Rightarrow> real option" where
  "baseX s i = wrap (totalWidth s) (real i * itemW s - smoothPos s)"

definition finalX :: "carousel \<Rightarrow> nat \<Rightarrow> real option" where
  "finalX s i = map_option (\<lambda>b. b - totalWidth s / 2 + visibleCenterX s) (baseX s i)"

definition cardCenterX :: "carousel \<Rightarrow> nat \<Rightarrow> real option" where
  "cardCenterX s i = map_option (\<lambda>f. f + itemW s / 2) (finalX s i)"

text \<open>The properties handed to \<open>gsap.set\<close> for the card.\<close>

record transform =
  set_x :: real
  set_y :: real
  scale :: real
  rotationY :: real
  rotationX :: real
  set_z :: real
  blur :: real
  brightness :: real

definition cardTransform :: "layout \<Rightarrow> carousel \<Rightarrow> nat \<Rightarrow> transform option" where
  "cardTransform env s i = do {
     fx \<leftarrow> finalX s i;
     cx \<leftarrow> cardCenterX s i;
     let dist = \<bar>cx - visibleCenterX s\<bar>;
     let t = clamp 0 1 (dist / max (innerWidth env) 900);
     let t = easeScale t;
     sc \<leftarrow> mapRange 0 1 1 0.65 t;
     ry \<leftarrow> mapRange 0 1 0 20 t;
     rx \<leftarrow> mapRange 0 1 0 6 t;
     z \<leftarrow> mapRange 0 1 120 (-60) t;
     yOffset \<leftarrow> mapRange 0 1 0 40 t;
     bl \<leftarrow> mapRange 0 1 0 6 t;
     br \<leftarrow> mapRange 0 1 1 0.6 t;
     Some \<lparr>set_x = fx, set_y = yOffset, scale = sc,
            rotationY = ry * (if cx < visibleCenterX s then 1 else -1),
            rotationX = rx * (if cx < visibleCenterX s then -1 else 1),
            set_z = z, blur = bl, brightness = br\<rparr>
   }"

text \<open>The target handed to \<open>gsap.to\<close> for the image inside the card.\<close>

record parallax =
  parallaxX :: real
  parallaxY :: real

definition cardParallax :: "layout \<Rightarrow> carousel \<Rightarrow> nat \<Rightarrow> parallax option" where
  "cardParallax env s i = do {
     cx \<leftarrow> cardCenterX s i;
     let parallaxRange = 40;
     px \<leftarrow> mapRange (- innerWidth env / 2) (innerWidth env / 2)
             parallaxRange (- parallaxRange) (cx - visibleCenterX s);
     py \<leftarrow> mapRange (- innerWidth env / 2) (innerWidth env / 2)
             (-10) 10 (cx - visibleCenterX s);
     Some \<lparr>parallaxX = px, parallaxY = py\<rparr>
   }"

text \<open>One frame: the new globals and what every card is given.\<close>

definition frame :: "layout \<Rightarrow> carousel \<Rightarrow> carousel \<times> (transform option \<times> parallax option) list" where
  "frame env s =
     (let s' = ticker s
      in (s', map (\<lambda>i. (cardTransform env s' i, cardParallax env s' i)) [0..<length (cards s')]))"

section \<open>Resize handling\<close>

text \<open>The handler calls \<open>getItemWidth\<close> twice; a throw leaves every variable as it was.\<close>

definition resize :: "layout \<Rightarrow> carousel \<Rightarrow> error + carousel" where
  "resize env s =
     (case getItemWidth env (cards s) of
        Inl e \<Rightarrow> Inl e
      | Inr w1 \<Rightarrow>
          (case getItemWidth env (cards (s\<lparr>itemW := w1\<rparr>)) of
             Inl e \<Rightarrow> Inl e
           | Inr w2 \<Rightarrow>
               Inr (s\<lparr>itemW := w2,
                      totalWidth := w2 * real (length (cards s)),
                      visibleCenterX := innerWidth env / 2\<rparr>)))"

section \<open>Events\<close>

datatype event =
    Wheel real
  | TouchStart real
  | TouchMove real
  | TouchEnd
  | MouseDown real real
  | MouseUp real real
  | MouseMove real
  | Resize layout

text \<open>The globals after the handler of an event has run.\<close>

fun dispatch :: "event \<Rightarrow> carousel \<Rightarrow> carousel" where
  "dispatch (Wheel deltaY) s = wheel s deltaY"
| "dispatch (TouchStart clientX) s = touchstart s clientX"
| "dispatch (TouchMove clientX) s = touchmove s clientX"
| "dispatch TouchEnd s = touchend s"
| "dispatch (MouseDown clientX now) s = mousedown s clientX now"
| "dispatch (MouseUp clientX now) s = mouseup s clientX now"
| "dispatch (MouseMove clientX) s = mousemove s clientX"
| "dispatch (Resize env) s = (case resize env s of Inl e \<Rightarrow> s | Inr s' \<Rightarrow> s')"

text \<open>A state to run examples from: three cards of width 300 in a window of width 400.\<close>

definition example :: carousel where
  "example =
     \<lparr>cards = [Card 0, Card 0, Card 0], itemW = 300, totalWidth = 900,
      visibleCenterX = 200, position = 0, velocity = 0, smoothPos = 0,
      touchStartX = None, isDragging = False, lastX = 0, dragStartTime = 0,
      dragStartX = 0, draggingClass = False\<rparr>"

definition exampleLayout :: layout where
  "exampleLayout = \<lparr>offsetWidth = 280, marginRight = Some 20, innerWidth = 400\<rparr>"

text \<open>A page whose first card measures zero width, with no margin.\<close>

definition zeroWidthLayout :: layout where
  "zeroWidthLayout = \<lparr>offsetWidth = 0, marginRight = None, innerWidth = 400\<rparr>"

section \<open>Properties of the remainder\<close>

lemma js_trunc_frac_nonneg:
  assumes "0 \<le> q"
  shows "0 \<le> q - of_int (js_trunc q)" and "q - of_int (js_trunc q) < 1"
  using assms by (simp_all add: js_trunc_def) linarith+

lemma js_trunc_frac_neg:
  assumes "q < 0"
  shows "-1 < q - of_int (js_trunc q)" and "q - of_int (js_trunc q) \<le> 0"
  using assms by (simp_all add: js_trunc_def) linarith+

lemma js_rem_scaled:
  assumes "m \<noteq> 0"
  shows "js_rem x m = Some (m * (x / m - of_int (js_trunc (x / m))))"
  using assms by (simp add: js_rem_def algebra_simps)

lemma js_rem_range:
  assumes "0 < m" and "js_rem x m = Some r"
  shows "- m < r" and "r < m"
proof -
  let ?f = "x / m - of_int (js_trunc (x / m))"
  have r: "r = m * ?f" using assms js_rem_scaled [of m x] by simp
  have "-1 < ?f \<and> ?f < 1"
  proof (cases "0 \<le> x / m")
    case True
    from js_trunc_frac_nonneg [OF True] show ?thesis by linarith
  next
    case False
    then have "x / m < 0" by simp
    from js_trunc_frac_neg [OF this] show ?thesis by linarith
  qed
  then have "m * (-1) < m * ?f" and "m * ?f < m * 1"
    using assms(1) by (simp_all only: mult_less_cancel_left_pos)
  then show "- m < r" and "r < m" using r by simp_all
qed

lemma js_rem_nonneg:
  assumes "0 < m" and "0 \<le> x" and "js_rem x m = Some r"
  shows "0 \<le> r"
proof -
  let ?f = "x / m - of_int (js_trunc (x / m))"
  have r: "r = m * ?f" using assms js_rem_scaled [of m x] by simp
  have "0 \<le> x / m" using assms by simp
  from js_trunc_frac_nonneg(1) [OF this] have "0 \<le> ?f" .
  then show ?thesis using r assms(1) by simp
qed

section \<open>wrap\<close>

text \<open>
  C1. For every real \<open>x\<close> and every modulus \<open>m > 0\<close> (the value of \<open>totalWidth\<close>),
  \<open>wrap(x)\<close> returns a number, and that number lies in the half-open interval
  \<open>[0, m)\<close>, whatever the sign of \<open>x\<close> and also when \<open>m\<close> divides \<open>x\<close>.
\<close>

theorem wrap_range:
  assumes "0 < m"
  shows "\<exists>r. wrap m x = Some r \<and> 0 \<le> r \<and> r < m"
proof -
  from assms obtain r1 where r1: "js_rem x m = Some r1"
    by (simp add: js_rem_def)
  from assms obtain r2 where r2: "js_rem (r1 + m) m = Some r2"
    by (simp add: js_rem_def)
  from js_rem_range(1) [OF assms r1] have "0 \<le> r1 + m" by simp
  from js_rem_nonneg [OF assms this r2] have "0 \<le> r2" .
  moreover from js_rem_range(2) [OF assms r2] have "r2 < m" .
  moreover have "wrap m x = Some r2" by (simp add: wrap_def r1 r2)
  ultimately show ?thesis by simp
qed

theorem wrap_range_witness:
  "(0::real) < 100 \<and> wrap 100 (-250) = Some 50 \<and> wrap 100 200 = Some 0
   \<and> (\<exists>r. wrap 100 (-250) = Some r \<and> 0 \<le> r \<and> r < 100)
   \<and> (\<exists>r. wrap 100 200 = Some r \<and> 0 \<le> r \<and> r < 100)"
  using wrap_range [of 100 "-250"] wrap_range [of 100 200]
  by (simp add: wrap_def js_rem_def js_trunc_def)

section \<open>easeScale\<close>

lemma easeScale_in: "t < 1/2 \<Longrightarrow> easeScale t = 2 * t * t"
  by (simp add: easeScale_def)

lemma easeScale_out: "1/2 \<le> t \<Longrightarrow> easeScale t = -1 + (4 - 2 * t) * t"
  by (simp add: easeScale_def)

lemma easeScale_continuous: "continuous_on A easeScale"
proof -
  have "continuous_on ({..1/2} \<union> {1/2..})
          (\<lambda>t::real. if t < 1/2 then 2 * t * t else -1 + (4 - 2 * t) * t)"
  proof (rule continuous_on_If)
    fix t :: real
    assume "t \<in> {..1/2}" and "\<not> t < 1/2"
    then have t: "t = 1/2" by simp
    show "2 * t * t = -1 + (4 - 2 * t) * t" unfolding t by simp
  qed (auto intro!: continuous_intros)
  moreover have "{..1/2} \<union> {1/2..} = (UNIV :: real set)" by auto
  moreover have "easeScale = (\<lambda>t::real. if t < 1/2 then 2 * t * t else -1 + (4 - 2 * t) * t)"
    by (rule ext) (simp add: easeScale_def)
  ultimately have "continuous_on UNIV easeScale" by (simp only:)
  then show ?thesis by (rule continuous_on_subset) simp
qed

lemma easeScale_mono_in:
  assumes "0 \<le> a" "a \<le> b" "b < 1/2"
  shows "easeScale a \<le> easeScale b"
proof -
  have "a * a \<le> b * b" using assms by (intro mult_mono) simp_all
  then show ?thesis using assms by (simp add: easeScale_in)
qed

lemma easeScale_mono_out:
  assumes "1/2 \<le> a" "a \<le> b" "b \<le> 1"
  shows "easeScale a \<le> easeScale b"
proof -
  have "0 \<le> (b - a) * (4 - 2 * (a + b))" using assms by (intro mult_nonneg_nonneg) simp_all
  then have "-1 + (4 - 2 * a) * a \<le> -1 + (4 - 2 * b) * b" by (simp add: algebra_simps)
  then show ?thesis using assms by (simp add: easeScale_out)
qed

lemma easeScale_le_half:
  assumes "0 \<le> a" "a < 1/2"
  shows "easeScale a \<le> 1/2"
proof -
  have "a * a \<le> (1/2) * (1/2)" using assms by (intro mult_mono) simp_all
  then show ?thesis using assms by (simp add: easeScale_in)
qed

lemma easeScale_ge_half:
  assumes "1/2 \<le> b" "b \<le> 1"
  shows "1/2 \<le> easeScale b"
proof -
  have "0 \<le> (2 * b - 1) * (3 - 2 * b)" using assms by (intro mult_nonneg_nonneg) simp_all
  then have "1/2 \<le> -1 + (4 - 2 * b) * b" by (simp add: algebra_simps)
  then show ?thesis using assms by (simp add: easeScale_out)
qed

lemma easeScale_mono:
  assumes "0 \<le> a" "a \<le> b" "b \<le> 1"
  shows "easeScale a \<le> easeScale b"
proof (cases "b < 1/2")
  case True
  with assms show ?thesis by (simp add: easeScale_mono_in)
next
  case b: False
  show ?thesis
  proof (cases "a < 1/2")
    case True
    have "easeScale a \<le> 1/2" using assms(1) True by (rule easeScale_le_half)
    moreover have "1/2 \<le> easeScale b" using b assms(3) by (intro easeScale_ge_half) simp_all
    ultimately show ?thesis by linarith
  next
    case False
    with assms show ?thesis by (simp add: easeScale_mono_out)
  qed
qed

lemma easeScale_unit:
  assumes "0 \<le> t" "t \<le> 1"
  shows "0 \<le> easeScale t" "easeScale t \<le> 1"
proof -
  have "easeScale 0 \<le> easeScale t" using assms by (intro easeScale_mono) simp_all
  then show "0 \<le> easeScale t" by (simp add: easeScale_def)
  have "easeScale t \<le> easeScale 1" using assms by (intro easeScale_mono) simp_all
  then show "easeScale t \<le> 1" by (simp add: easeScale_def)
qed

text \<open>
  C2. \<open>easeScale(0) = 0\<close>, \<open>easeScale(1) = 1\<close>, \<open>easeScale(0.5) = 0.5\<close>, and
  \<open>easeScale\<close> is continuous and monotonically non-decreasing on the whole interval
  \<open>[0, 1]\<close>.
\<close>

theorem easeScale_shape:
  "easeScale 0 = 0 \<and> easeScale 1 = 1 \<and> easeScale 0.5 = 0.5
   \<and> continuous_on {0..1} easeScale
   \<and> (\<forall>a b. 0 \<le> a \<and> a \<le> b \<and> b \<le> 1 \<longrightarrow> easeScale a \<le> easeScale b)"
proof -
  have "easeScale 0 = 0" "easeScale 1 = 1" "easeScale 0.5 = 0.5"
    by (simp_all add: easeScale_def)
  moreover have "continuous_on {0..1} easeScale" by (rule easeScale_continuous)
  moreover have "\<forall>a b. 0 \<le> a \<and> a \<le> b \<and> b \<le> 1 \<longrightarrow> easeScale a \<le> easeScale b"
    using easeScale_mono by blast
  ultimately show ?thesis by blast
qed

theorem easeScale_shape_witness:
  "easeScale 0.25 = 0.125 \<and> easeScale 0.75 = 0.875 \<and> easeScale 0.25 \<le> easeScale 0.75"
proof -
  from easeScale_shape have "0 \<le> (0.25::real) \<and> (0.25::real) \<le> 0.75 \<and> (0.75::real) \<le> 1 \<longrightarrow> easeScale 0.25 \<le> easeScale 0.75"
    by blast
  then show ?thesis by (simp add: easeScale_def)
qed

section \<open>Clamping\<close>

lemma clamp_unit: "0 \<le> clamp 0 1 v" "clamp 0 1 v \<le> 1"
  by (simp_all add: clamp_def)

section \<open>The ticker during a mouse drag\<close>

text \<open>
  C3. A tick that runs while a mouse drag is active (\<open>isDragging\<close> true) leaves
  \<open>position\<close> and \<open>velocity\<close> as they were: it neither integrates the velocity nor
  applies friction. In such a state the only events whose handlers change \<open>position\<close>
  are the two drag-move events, \<open>mousemove\<close> and \<open>touchmove\<close>.
\<close>

theorem ticker_dragging:
  assumes "isDragging s"
  shows "position (ticker s) = position s \<and> velocity (ticker s) = velocity s
         \<and> (\<forall>e. position (dispatch e s) \<noteq> position s \<longrightarrow>
               (\<exists>clientX. e = MouseMove clientX \<or> e = TouchMove clientX))"
proof -
  have "position (ticker s) = position s" "velocity (ticker s) = velocity s"
    using assms by (simp_all add: ticker_def)
  moreover have "\<exists>clientX. e = MouseMove clientX \<or> e = TouchMove clientX"
    if "position (dispatch e s) \<noteq> position s" for e
    using that
    by (cases e)
      (auto simp: wheel_def touchstart_def touchend_def mousedown_def mouseup_def
        resize_def Let_def split: sum.splits if_splits)
  ultimately show ?thesis by blast
qed

theorem ticker_dragging_witness:
  "isDragging (mousedown example 100 0)
   \<and> position (ticker (mousedown example 100 0)) = 0
   \<and> velocity (ticker (wheel (mousedown example 100 0) 100)) = 10
   \<and> position (ticker (wheel (mousedown example 100 0) 100)) = 0
   \<and> position (dispatch (MouseMove 150) (mousedown example 100 0)) = -40"
proof -
  have d: "isDragging (mousedown example 100 0)" "isDragging (wheel (mousedown example 100 0) 100)"
    by (simp_all add: mousedown_def wheel_def)
  show ?thesis
    using ticker_dragging [OF d(1)] ticker_dragging [OF d(2)]
    by (simp add: mousedown_def wheel_def wheelMultiplier_def mousemove_def example_def)
qed

section \<open>Releasing the mouse\<close>

lemma mousemove_session:
  "isDragging (mousemove s x) = isDragging s"
  "dragStartX (mousemove s x) = dragStartX s"
  "dragStartTime (mousemove s x) = dragStartTime s"
  by (simp_all add: mousemove_def Let_def)

lemma mousemoves_session:
  "isDragging (foldl mousemove s xs) = isDragging s
   \<and> dragStartX (foldl mousemove s xs) = dragStartX s
   \<and> dragStartTime (foldl mousemove s xs) = dragStartTime s"
  by (induction xs arbitrary: s) (simp_all add: mousemove_session)

lemma mouseup_dragging:
  assumes "isDragging s"
  shows "\<not> isDragging (mouseup s clientX now)"
    and "0 < (now - dragStartTime s) / 1000 \<Longrightarrow>
           velocity (mouseup s clientX now) =
             max (min (- ((clientX - dragStartX s) / ((now - dragStartTime s) / 1000)) * 0.03) 30) (-30)"
    and "\<not> 0 < (now - dragStartTime s) / 1000 \<Longrightarrow>
           velocity (mouseup s clientX now) = velocity s"
  using assms by (simp_all add: mouseup_def Let_def)

text \<open>
  C4. A \<open>mouseup\<close> while dragging always leaves the dragging state. When the time
  \<open>dt\<close> since the press, in seconds, is positive, it sets \<open>velocity\<close> to
  \<open>-(dx / dt) * 0.03\<close> clamped to \<open>[-30, 30]\<close>, so the velocity it assigns lies in
  that interval; when \<open>dt\<close> is not positive it assigns none and \<open>velocity\<close> stays as
  it was. A press at X = 100 and a release at X = 200 half a second later, with any mouse
  moves in between, leave \<open>velocity = -6\<close>.
\<close>

theorem mouseup_velocity:
  assumes "isDragging s"
  shows "\<not> isDragging (mouseup s clientX now)
    \<and> (0 < (now - dragStartTime s) / 1000 \<longrightarrow>
         velocity (mouseup s clientX now) =
           clamp (-30) 30 (- ((clientX - dragStartX s) / ((now - dragStartTime s) / 1000)) * 0.03)
         \<and> -30 \<le> velocity (mouseup s clientX now) \<and> velocity (mouseup s clientX now) \<le> 30)
    \<and> (\<not> 0 < (now - dragStartTime s) / 1000 \<longrightarrow>
         velocity (mouseup s clientX now) = velocity s)
    \<and> velocity (mouseup (foldl mousemove (mousedown s0 100 t0) moves) 200 (t0 + 500)) = -6"
proof -
  let ?v = "- ((clientX - dragStartX s) / ((now - dragStartTime s) / 1000)) * 0.03"
  have clamp_eq: "max (min v 30) (-30) = clamp (-30) 30 v" for v :: real
    by (simp add: clamp_def)
  have "\<not> isDragging (mouseup s clientX now)"
    using assms by (rule mouseup_dragging(1))
  moreover have "velocity (mouseup s clientX now) = clamp (-30) 30 ?v
      \<and> -30 \<le> velocity (mouseup s clientX now) \<and> velocity (mouseup s clientX now) \<le> 30"
    if "0 < (now - dragStartTime s) / 1000"
  proof -
    have "velocity (mouseup s clientX now) = max (min ?v 30) (-30)"
      using assms that by (rule mouseup_dragging(2))
    then show ?thesis by (simp add: clamp_eq [symmetric])
  qed
  moreover have "velocity (mouseup s clientX now) = velocity s"
    if "\<not> 0 < (now - dragStartTime s) / 1000"
    using assms that by (rule mouseup_dragging(3))
  moreover have "velocity (mouseup (foldl mousemove (mousedown s0 100 t0) moves) 200 (t0 + 500)) = -6"
  proof -
    let ?d = "foldl mousemove (mousedown s0 100 t0) moves"
    have d: "isDragging ?d" "dragStartX ?d = 100" "dragStartTime ?d = t0"
      using mousemoves_session [of "mousedown s0 100 t0" moves]
      by (simp_all add: mousedown_def)
    have "0 < (t0 + 500 - dragStartTime ?d) / 1000" by (simp add: d)
    from mouseup_dragging(2) [OF d(1) this] show ?thesis by (simp add: d)
  qed
  ultimately show ?thesis by blast
qed

theorem mouseup_velocity_witness:
  "isDragging (mousedown example 100 1000)
   \<and> \<not> isDragging (mouseup (mousedown example 100 1000) 5100 1500)
   \<and> velocity (mouseup (mousedown example 100 1000) 5100 1500) = -30
   \<and> velocity (mouseup (mousedown example 100 1000) 200 1500) = -6
   \<and> velocity (mouseup (wheel (mousedown example 100 1000) 1000) 200 1000) = 100"
proof -
  have d: "isDragging (mousedown example 100 1000)"
    by (simp add: mousedown_def)
  show ?thesis
    using d mouseup_velocity [OF d, of 5100 1500]
    by (simp add: mouseup_def mousedown_def wheel_def wheelMultiplier_def example_def Let_def)
qed

section \<open>The visual channels of a card\<close>

lemma mapRange_unit: "mapRange 0 1 a b t = Some (a + t * (b - a))"
  by (simp add: mapRange_def)

lemma wrap_defined:
  assumes "m \<noteq> 0"
  shows "\<exists>r. wrap m x = Some r"
  using assms by (simp add: wrap_def js_rem_def)

lemma cardCenterX_defined:
  assumes "totalWidth s \<noteq> 0"
  shows "\<exists>b. baseX s i = Some b \<and> finalX s i = Some (b - totalWidth s / 2 + visibleCenterX s)
           \<and> cardCenterX s i = Some (b - totalWidth s / 2 + visibleCenterX s + itemW s / 2)"
proof -
  from wrap_defined [OF assms] obtain b where "baseX s i = Some b"
    unfolding baseX_def by blast
  then show ?thesis by (simp add: finalX_def cardCenterX_def)
qed

lemma cardTransform_eased:
  assumes "finalX s i = Some fx" and "cardCenterX s i = Some cx"
  shows "\<exists>t. t = easeScale (clamp 0 1 (\<bar>cx - visibleCenterX s\<bar> / max (innerWidth env) 900))
    \<and> (\<exists>f. cardTransform env s i = Some f
         \<and> scale f = 1 + t * (0.65 - 1) \<and> blur f = 0 + t * (6 - 0)
         \<and> brightness f = 1 + t * (0.6 - 1))"
  using assms by (simp add: cardTransform_def mapRange_unit Let_def)

lemma channel_bounds:
  fixes t :: real
  assumes "0 \<le> t" "t \<le> 1"
  shows "0.65 \<le> 1 + t * (0.65 - 1)" "1 + t * (0.65 - 1) \<le> 1"
    and "0.6 \<le> 1 + t * (0.6 - 1)" "1 + t * (0.6 - 1) \<le> 1"
    and "0 \<le> 0 + t * (6 - 0)" "0 + t * (6 - 0) \<le> 6"
  using assms by simp_all

lemma cardTransform_channels:
  assumes "totalWidth s \<noteq> 0"
  shows "\<exists>f. cardTransform env s i = Some f
           \<and> 0.65 \<le> scale f \<and> scale f \<le> 1
           \<and> 0.6 \<le> brightness f \<and> brightness f \<le> 1
           \<and> 0 \<le> blur f \<and> blur f \<le> 6"
proof -
  from cardCenterX_defined [OF assms] obtain fx cx
    where "finalX s i = Some fx" and "cardCenterX s i = Some cx" by blast
  from cardTransform_eased [OF this] obtain t f
    where t: "t = easeScale (clamp 0 1 (\<bar>cx - visibleCenterX s\<bar> / max (innerWidth env) 900))"
      and f: "cardTransform env s i = Some f" "scale f = 1 + t * (0.65 - 1)"
        "blur f = 0 + t * (6 - 0)" "brightness f = 1 + t * (0.6 - 1)"
    by blast
  have "0 \<le> t" "t \<le> 1"
    unfolding t by (rule easeScale_unit; rule clamp_unit)+
  from channel_bounds [OF this] show ?thesis
    using f by (simp only:) simp
qed

lemma ticker_geometry:
  "totalWidth (ticker s) = totalWidth s" "cards (ticker s) = cards s"
  by (simp_all add: ticker_def)

lemma cardTransform_zero_width:
  assumes "totalWidth s = 0"
  shows "cardTransform env s i = None"
proof -
  have "finalX s i = None"
    using assms by (simp add: finalX_def baseX_def wrap_def js_rem_def)
  then show ?thesis by (simp add: cardTransform_def)
qed

text \<open>
  C5, as stated: for every card index and at every frame, \<open>scale\<close> lies in
  \<open>[0.65, 1]\<close>, \<open>brightness\<close> in \<open>[0.6, 1]\<close> and \<open>blur\<close> in \<open>[0, 6]\<close>. This fails
  after a resize on a page whose first card measures zero width: \<open>itemW\<close> and
  \<open>totalWidth\<close> become 0, \<open>wrap\<close> takes a remainder by zero, and the loop has no
  number for any channel of card 0, neither before nor after the next tick.
\<close>

theorem cardTransform_bounds_counterexample:
  "resize zeroWidthLayout example
     = Inr (example\<lparr>itemW := 0, totalWidth := 0, visibleCenterX := 200\<rparr>)
   \<and> totalWidth (dispatch (Resize zeroWidthLayout) example) = 0
   \<and> cardTransform zeroWidthLayout (dispatch (Resize zeroWidthLayout) example) 0 = None
   \<and> fst (snd (frame zeroWidthLayout (dispatch (Resize zeroWidthLayout) example)) ! 0) = None"
proof -
  let ?s = "dispatch (Resize zeroWidthLayout) example"
  have r: "resize zeroWidthLayout example
      = Inr (example\<lparr>itemW := 0, totalWidth := 0, visibleCenterX := 200\<rparr>)"
    by (simp add: resize_def getItemWidth_def example_def zeroWidthLayout_def)
  have w: "totalWidth ?s = 0" and n: "length (cards ?s) = 3"
    by (simp_all add: r) (simp add: example_def)
  have t: "cardTransform zeroWidthLayout ?s 0 = None"
    using w by (rule cardTransform_zero_width)
  have "totalWidth (ticker ?s) = 0" by (simp only: ticker_geometry w)
  then have "cardTransform zeroWidthLayout (ticker ?s) 0 = None"
    by (rule cardTransform_zero_width)
  moreover have "fst (snd (frame zeroWidthLayout ?s) ! 0) = cardTransform zeroWidthLayout (ticker ?s) 0"
    by (simp add: frame_def Let_def ticker_geometry n del: dispatch.simps)
  ultimately have "fst (snd (frame zeroWidthLayout ?s) ! 0) = None" by (simp only:)
  with r w t show ?thesis by (simp only: simp_thms)
qed

text \<open>
  C5, amended: in every state whose \<open>totalWidth\<close> is not zero, the loop computes for
  every card index a transform whose \<open>scale\<close> lies in \<open>[0.65, 1]\<close>, whose
  \<open>brightness\<close> lies in \<open>[0.6, 1]\<close> and whose \<open>blur\<close> lies in \<open>[0, 6]\<close>: the
  normalised distance is clamped to \<open>[0, 1]\<close> before easing, easing keeps it there, and
  each channel is a linear map of the eased value. The same holds for every card of a
  whole frame.
\<close>

theorem cardTransform_bounds:
  assumes "totalWidth s \<noteq> 0"
  shows "(\<exists>f. cardTransform env s i = Some f
           \<and> 0.65 \<le> scale f \<and> scale f \<le> 1
           \<and> 0.6 \<le> brightness f \<and> brightness f \<le> 1
           \<and> 0 \<le> blur f \<and> blur f \<le> 6)
    \<and> length (snd (frame env s)) = length (cards s)
    \<and> (\<forall>c \<in> set (snd (frame env s)).
          \<exists>f. fst c = Some f
           \<and> 0.65 \<le> scale f \<and> scale f \<le> 1
           \<and> 0.6 \<le> brightness f \<and> brightness f \<le> 1
           \<and> 0 \<le> blur f \<and> blur f \<le> 6)"
proof -
  have "totalWidth (ticker s) \<noteq> 0" using assms by (simp add: ticker_geometry)
  then have "\<exists>f. cardTransform env (ticker s) j = Some f
           \<and> 0.65 \<le> scale f \<and> scale f \<le> 1
           \<and> 0.6 \<le> brightness f \<and> brightness f \<le> 1
           \<and> 0 \<le> blur f \<and> blur f \<le> 6" for j
    by (rule cardTransform_channels)
  then have "\<forall>c \<in> set (snd (frame env s)).
          \<exists>f. fst c = Some f
           \<and> 0.65 \<le> scale f \<and> scale f \<le> 1
           \<and> 0.6 \<le> brightness f \<and> brightness f \<le> 1
           \<and> 0 \<le> blur f \<and> blur f \<le> 6"
    by (auto simp: frame_def Let_def)
  moreover have "length (snd (frame env s)) = length (cards s)"
    by (simp add: frame_def Let_def ticker_geometry)
  ultimately show ?thesis using cardTransform_channels [OF assms] by blast
qed

theorem cardTransform_bounds_witness:
  "totalWidth example \<noteq> 0
   \<and> (\<exists>f. cardTransform exampleLayout example 0 = Some f
         \<and> scale f = 83 / 90 \<and> brightness f = 41 / 45 \<and> blur f = 4 / 3
         \<and> 0.65 \<le> scale f \<and> scale f \<le> 1
         \<and> 0.6 \<le> brightness f \<and> brightness f \<le> 1
         \<and> 0 \<le> blur f \<and> blur f \<le> 6)"
proof -
  have h: "totalWidth example \<noteq> 0" by (simp add: example_def)
  have c: "cardCenterX example 0 = Some (-100)" "finalX example 0 = Some (-250)"
    by (simp_all add: cardCenterX_def finalX_def baseX_def wrap_def js_rem_def js_trunc_def example_def)
  have t: "cardTransform exampleLayout example 0 =
      Some \<lparr>set_x = - 250, set_y = 80 / 9, scale = 83 / 90, rotationY = 40 / 9,
        rotationX = - (4 / 3), set_z = 80, blur = 4 / 3, brightness = 41 / 45\<rparr>"
    unfolding cardTransform_def c
    by (simp add: mapRange_def clamp_def easeScale_def example_def exampleLayout_def)
  show ?thesis
    using h cardTransform_bounds [OF h, of exampleLayout 0]
    by (simp add: t)
qed

section \<open>Smoothing\<close>

lemma dispatch_smoothPos: "smoothPos (dispatch e s) = smoothPos s"
  by (cases e)
    (simp_all add: wheel_def touchstart_def touchmove_def touchend_def mousedown_def
      mouseup_def mousemove_def resize_def getItemWidth_def Let_def
      split: option.splits sum.splits list.splits)

text \<open>
  C6. Every tick sets \<open>smoothPos\<close> to \<open>smoothPos + (position - smoothPos) * lerpSpeed\<close>
  with \<open>lerpSpeed = 0.14\<close>, where \<open>position\<close> is the value the tick has just computed
  (the old one while dragging, the old one plus \<open>velocity\<close> otherwise); and no input
  handler and no resize changes \<open>smoothPos\<close>.
\<close>

theorem ticker_smoothPos:
  "smoothPos (ticker s) = smoothPos s + (position (ticker s) - smoothPos s) * lerpSpeed
   \<and> lerpSpeed = 0.14
   \<and> position (ticker s) = (if isDragging s then position s else position s + velocity s)
   \<and> (\<forall>e. smoothPos (dispatch e s) = smoothPos s)"
  by (simp add: ticker_def lerpSpeed_def dispatch_smoothPos)

section \<open>The ticker at rest\<close>

lemma ticker_at_rest:
  assumes "velocity s = 0"
  shows "position (ticker s) = position s" and "velocity (ticker s) = 0"
    and "smoothPos (ticker s) = position s + (smoothPos s - position s) * (1 - lerpSpeed)"
  using assms by (simp_all add: ticker_def algebra_simps)

text \<open>
  C7, as stated: with no input and \<open>velocity = 0\<close>, a tick changes neither \<open>position\<close>
  nor \<open>smoothPos\<close>. This fails after a touch drag of 10 pixels from the initial state:
  \<open>velocity\<close> is 0 and \<open>position\<close> is 10, and the tick moves \<open>smoothPos\<close> from 0 to 1.4.
\<close>

theorem ticker_at_rest_counterexample:
  "velocity (touchmove (touchstart example 110) 100) = 0
   \<and> \<not> (position (ticker (touchmove (touchstart example 110) 100))
            = position (touchmove (touchstart example 110) 100)
          \<and> smoothPos (ticker (touchmove (touchstart example 110) 100))
            = smoothPos (touchmove (touchstart example 110) 100))"
  by (simp add: ticker_def touchmove_def touchstart_def example_def lerpSpeed_def)

text \<open>
  C7, amended: with no input and \<open>velocity = 0\<close>, any number of ticks leaves \<open>position\<close>
  and \<open>velocity\<close> as they were, and after \<open>n\<close> ticks the gap between \<open>smoothPos\<close> and
  \<open>position\<close> is \<open>(1 - lerpSpeed) ^ n\<close> times the gap at the start; so \<open>smoothPos\<close>
  stays constant when it equals \<open>position\<close> at the start.
\<close>

theorem ticker_at_rest_iterated:
  assumes "velocity s = 0"
  shows "position ((ticker ^^ n) s) = position s
    \<and> velocity ((ticker ^^ n) s) = 0
    \<and> smoothPos ((ticker ^^ n) s) = position s + (smoothPos s - position s) * (1 - lerpSpeed) ^ n
    \<and> (smoothPos s = position s \<longrightarrow> smoothPos ((ticker ^^ n) s) = smoothPos s)"
proof -
  have "position ((ticker ^^ n) s) = position s
    \<and> velocity ((ticker ^^ n) s) = 0
    \<and> smoothPos ((ticker ^^ n) s) = position s + (smoothPos s - position s) * (1 - lerpSpeed) ^ n"
  proof (induction n)
    case 0
    show ?case using assms by simp
  next
    case (Suc n)
    let ?t = "(ticker ^^ n) s"
    from Suc have v: "velocity ?t = 0" by simp
    from ticker_at_rest [OF v] Suc show ?case by (simp add: algebra_simps)
  qed
  then show ?thesis by simp
qed

theorem ticker_at_rest_iterated_witness:
  "velocity (touchmove (touchstart example 110) 100) = 0
   \<and> position ((ticker ^^ 2) (touchmove (touchstart example 110) 100)) = 10
   \<and> smoothPos ((ticker ^^ 2) (touchmove (touchstart example 110) 100)) = 2.604
   \<and> velocity example = 0 \<and> smoothPos example = position example
   \<and> smoothPos ((ticker ^^ 2) example) = smoothPos example"
proof -
  have v: "velocity (touchmove (touchstart example 110) 100) = 0" "velocity example = 0"
    by (simp_all add: touchmove_def touchstart_def example_def)
  have e: "smoothPos example = position example" by (simp add: example_def)
  show ?thesis
    using v e ticker_at_rest_iterated [OF v(1), of 2] ticker_at_rest_iterated [OF v(2), of 2]
    by (simp add: touchmove_def touchstart_def example_def lerpSpeed_def power2_eq_square)
qed

section \<open>Resizing\<close>

text \<open>
  C8. With at least one card, the resize handler sets \<open>itemW\<close> to the first card's
  measured width plus margin, \<open>totalWidth\<close> to \<open>itemW\<close> times the number of cards and
  \<open>visibleCenterX\<close> to half the window's width, and changes nothing else: \<open>position\<close>,
  \<open>velocity\<close>, \<open>smoothPos\<close> and the cards stay as they were.
\<close>

theorem resize_geometry:
  assumes "cards s \<noteq> []"
  shows "\<exists>s'. resize env s = Inr s'
    \<and> itemW s' = offsetWidth env + (case marginRight env of None \<Rightarrow> 0 | Some m \<Rightarrow> m)
    \<and> totalWidth s' = itemW s' * real (length (cards s'))
    \<and> visibleCenterX s' = innerWidth env / 2
    \<and> position s' = position s \<and> velocity s' = velocity s
    \<and> smoothPos s' = smoothPos s \<and> cards s' = cards s
    \<and> s' = s\<lparr>itemW := itemW s', totalWidth := totalWidth s',
              visibleCenterX := visibleCenterX s'\<rparr>"
proof -
  from assms obtain c cs where "cards s = c # cs" by (cases "cards s") simp_all
  then show ?thesis by (simp add: resize_def getItemWidth_def)
qed

theorem resize_geometry_witness:
  "cards (wheel example 100) \<noteq> []
   \<and> resize \<lparr>offsetWidth = 200, marginRight = Some 20, innerWidth = 1000\<rparr> (wheel example 100)
       = Inr ((wheel example 100)\<lparr>itemW := 220, totalWidth := 660, visibleCenterX := 500\<rparr>)"
proof -
  have h: "cards (wheel example 100) \<noteq> []" by (simp add: wheel_def example_def)
  show ?thesis
    using h resize_geometry [OF h, of "\<lparr>offsetWidth = 200, marginRight = Some 20, innerWidth = 1000\<rparr>"]
    by (simp add: resize_def getItemWidth_def wheel_def example_def)
qed

section \<open>The wheel\<close>

text \<open>
  C9. A wheel event adds \<open>deltaY * wheelMultiplier\<close> to \<open>velocity\<close> and changes no other
  variable; \<open>wheelMultiplier\<close> is 0.1, so \<open>deltaY = 100\<close> adds exactly 10.
\<close>

theorem wheel_velocity:
  "wheel s deltaY = s\<lparr>velocity := velocity s + deltaY * wheelMultiplier\<rparr>
   \<and> velocity (wheel s deltaY) = velocity s + deltaY * wheelMultiplier
   \<and> position (wheel s deltaY) = position s
   \<and> smoothPos (wheel s deltaY) = smoothPos s
   \<and> dispatch (Wheel deltaY) s = wheel s deltaY
   \<and> wheelMultiplier = 0.1
   \<and> velocity (wheel s 100) = velocity s + 10"
  by (simp add: wheel_def wheelMultiplier_def)

section \<open>Parallax\<close>

text \<open>
  C10. In a window of positive width, the parallax target of a card is the unclamped
  linear image of \<open>cardCenterX - visibleCenterX\<close>: \<open>parallaxX\<close> is \<open>-80\<close> and
  \<open>parallaxY\<close> is \<open>20\<close> times that offset divided by the window's width. For a card whose
  centre is farther than half the window's width from \<open>visibleCenterX\<close>, \<open>parallaxX\<close>
  lies outside \<open>[-40, 40]\<close> and \<open>parallaxY\<close> outside \<open>[-10, 10]\<close>.
\<close>

theorem cardParallax_unbounded:
  assumes "0 < innerWidth env" and "cardCenterX s i = Some cx"
    and "innerWidth env / 2 < \<bar>cx - visibleCenterX s\<bar>"
  shows "\<exists>p. cardParallax env s i = Some p
           \<and> parallaxX p = - 80 * (cx - visibleCenterX s) / innerWidth env
           \<and> parallaxY p = 20 * (cx - visibleCenterX s) / innerWidth env
           \<and> \<not> (-40 \<le> parallaxX p \<and> parallaxX p \<le> 40)
           \<and> \<not> (-10 \<le> parallaxY p \<and> parallaxY p \<le> 10)"
proof -
  let ?w = "innerWidth env" and ?d = "cx - visibleCenterX s"
  have px: "mapRange (- ?w / 2) (?w / 2) 40 (-40) ?d = Some (- 80 * ?d / ?w)"
    using assms(1) by (simp add: mapRange_def field_simps)
  have py: "mapRange (- ?w / 2) (?w / 2) (-10) 10 ?d = Some (20 * ?d / ?w)"
    using assms(1) by (simp add: mapRange_def field_simps)
  have p: "cardParallax env s i = Some \<lparr>parallaxX = - 80 * ?d / ?w, parallaxY = 20 * ?d / ?w\<rparr>"
    using px py by (simp add: cardParallax_def assms(2) Let_def)
  have "1 / 2 < \<bar>?d\<bar> / ?w" using assms(1,3) by (simp add: field_simps)
  then have "1 / 2 < \<bar>?d / ?w\<bar>" using assms(1) by simp
  moreover define q where "q = ?d / ?w"
  ultimately have q: "1 / 2 < \<bar>q\<bar>" by simp
  have eq: "- 80 * ?d / ?w = - 80 * q" "20 * ?d / ?w = 20 * q"
    by (simp_all add: q_def)
  have "\<not> (-40 \<le> - 80 * q \<and> - 80 * q \<le> 40)" and "\<not> (-10 \<le> 20 * q \<and> 20 * q \<le> 10)"
    using q by (auto simp: abs_if split: if_splits)
  then have "\<not> (-40 \<le> - 80 * ?d / ?w \<and> - 80 * ?d / ?w \<le> 40)"
    and "\<not> (-10 \<le> 20 * ?d / ?w \<and> 20 * ?d / ?w \<le> 10)"
    by (simp_all only: eq not_False_eq_True)
  then show ?thesis using p by simp
qed

theorem cardParallax_unbounded_witness:
  "0 < innerWidth exampleLayout \<and> cardCenterX example 0 = Some (-100)
   \<and> innerWidth exampleLayout / 2 < \<bar>-100 - visibleCenterX example\<bar>
   \<and> cardParallax exampleLayout example 0 = Some \<lparr>parallaxX = 60, parallaxY = -15\<rparr>"
proof -
  have h: "0 < innerWidth exampleLayout" by (simp add: exampleLayout_def)
  have c: "cardCenterX example 0 = Some (-100)"
    by (simp add: cardCenterX_def finalX_def baseX_def wrap_def js_rem_def js_trunc_def example_def)
  have d: "innerWidth exampleLayout / 2 < \<bar>-100 - visibleCenterX example\<bar>"
    by (simp add: example_def exampleLayout_def)
  show ?thesis
    using h c d cardParallax_unbounded [OF h c d]
    by (auto simp: example_def exampleLayout_def)
qed

end
